theory Spec2Isabelle
  imports Main "HOL-Library.Multiset"
begin

section \<open>The meeting routes of the backend\<close>

text \<open>
  The router of the meetings resource has seven handlers, each running after the
  \<^verbatim>\<open>auth\<close> middleware, which supplies \<^verbatim>\<open>req.user.id\<close>. Every handler reads or writes
  the two collections \<^verbatim>\<open>Meeting\<close> and \<^verbatim>\<open>User\<close> through the object-document mapper.

  The model is a shallow embedding: a collection is the list of its documents in
  insertion order, a handler is a function from the database (and the request) to the
  response and the database afterwards. The values the handlers draw from the
  environment (\<^verbatim>\<open>Date.now()\<close>, \<^verbatim>\<open>Math.random()\<close>) are arguments.

  The \<^verbatim>\<open>:meetingId\<close> of a route is whatever string the path holds. The mapper casts it
  to an ObjectId when a query is built and throws when the string is not one; the
  exception lands in the \<^verbatim>\<open>catch\<close> branch of the handler, which answers 400 or 500 and
  writes nothing. The caller's identifier comes from the \<^verbatim>\<open>auth\<close> middleware and is an
  ObjectId always.

  Beyond that the database engine is the ideal one: a query returns its answer and a save
  stores the document. A lost connection or a refused write, which the \<^verbatim>\<open>catch\<close> branches
  answer as well, is no input of a request and is not part of the model. ObjectIds are
  natural numbers. A field of a request body that a handler tests before use
  (\<^verbatim>\<open>status\<close>, \<^verbatim>\<open>meetingLink\<close>) is a string or absent.
\<close>

subsection \<open>Documents\<close>

type_synonym objectId = nat

text \<open>
  The \<^verbatim>\<open>:meetingId\<close> path parameter: the ObjectId it casts to, or the string as it came
  when the cast throws.
\<close>

datatype idParam = WellFormed objectId | Malformed string

text \<open>
  A user document, with the fields the router names: \<^verbatim>\<open>_id\<close>, \<^verbatim>\<open>name\<close>, \<^verbatim>\<open>email\<close>, \<^verbatim>\<open>userType\<close>.
\<close>

record user =
  uid :: objectId
  name :: string
  email :: string
  userType :: string

text \<open>
  Modelled from the spec: the schema \<^verbatim>\<open>models/Meeting\<close> is required by the router and is
  not among the sources. Its fields are those the handlers read and write; the spec gives
  \<^verbatim>\<open>status\<close> the initial value \<^verbatim>\<open>pending\<close> and \<^verbatim>\<open>createdAt\<close> the creation time. A path that
  holds no value is \<open>None\<close>.
\<close>

record meeting =
  mid :: objectId
  requestedBy :: objectId
  requestedTo :: objectId
  title :: string
  description :: string
  dateTime :: nat
  duration :: nat
  status :: string
  meetingLink :: string
  virtualPitchRoomId :: "string option"
  createdAt :: nat

record db =
  users :: "user list"
  meetings :: "meeting list"

text \<open>What a request draws from its environment.\<close>

record env =
  dateNow :: nat               \<comment> \<open>\<^verbatim>\<open>Date.now()\<close>\<close>
  randomLink :: string         \<comment> \<open>\<^verbatim>\<open>Math.random().toString(36)\<close> of the meeting link\<close>
  randomRoom :: string         \<comment> \<open>\<^verbatim>\<open>Math.random().toString(36)\<close> of the room id\<close>
  createdNow :: nat            \<comment> \<open>the time the schema stamps on a new document\<close>

text \<open>A response is a status code with a body, or a status code with a message.\<close>

datatype error = Err nat string

type_synonym 'a reply = "error + (nat \<times> 'a)"

subsection \<open>Generated tokens\<close>

text \<open>The decimal digits of a number, as a template literal prints it.\<close>

definition digit :: "nat \<Rightarrow> char" where
  "digit d = ''0123456789'' ! d"

function decimal :: "nat \<Rightarrow> string" where
  "decimal n =
     (if n < 10 then [digit n]
      else decimal (n div 10) @ [digit (n mod 10)])"
  by pat_completeness auto
termination
  by (relation "measure id") auto

declare decimal.simps [simp del]

text \<open>
  \<^verbatim>\<open>`https://meet.google.com/${Math.random().toString(36).substring(7)}`\<close> and
  \<^verbatim>\<open>`pitch-${Date.now()}-${Math.random().toString(36).substring(2, 8)}`\<close>.
\<close>

definition newMeetingLink :: "env \<Rightarrow> string" where
  "newMeetingLink e = ''https://meet.google.com/'' @ drop 7 (randomLink e)"

definition newVirtualPitchRoomId :: "env \<Rightarrow> string" where
  "newVirtualPitchRoomId e =
     ''pitch-'' @ decimal (dateNow e) @ ''-'' @ take 6 (drop 2 (randomRoom e))"

subsection \<open>The collections\<close>

text \<open>\<^verbatim>\<open>User.findOne({ email })\<close> and \<^verbatim>\<open>Meeting.findOne(filter)\<close>: the first match.\<close>

definition findUserByEmail :: "user list \<Rightarrow> string \<Rightarrow> user option" where
  "findUserByEmail us em = find (\<lambda>u. email u = em) us"

definition isParticipant :: "objectId \<Rightarrow> meeting \<Rightarrow> bool" where
  "isParticipant caller m \<longleftrightarrow> requestedBy m = caller \<or> requestedTo m = caller"

text \<open>
  A new document gets an identifier that no document of the collection has (the driver
  generates it, and the collection's index keeps identifiers unique).
\<close>

definition freshId :: "meeting list \<Rightarrow> objectId" where
  "freshId ms = Suc (foldr max (map mid ms) 0)"

text \<open>\<^verbatim>\<open>meeting.save()\<close> on a loaded document: the document with its \<^verbatim>\<open>_id\<close> is replaced.\<close>

fun saveDoc :: "meeting \<Rightarrow> meeting list \<Rightarrow> meeting list" where
  "saveDoc m [] = []"
| "saveDoc m (x # xs) = (if mid x = mid m then m # xs else x # saveDoc m xs)"

text \<open>\<^verbatim>\<open>populate(path, 'name email')\<close>: the referenced user, or null when there is none.\<close>

record userRef =
  refId :: objectId
  refName :: string
  refEmail :: string

record populated =
  doc :: meeting
  requestedByUser :: "userRef option"
  requestedToUser :: "userRef option"

definition populateUser :: "user list \<Rightarrow> objectId \<Rightarrow> userRef option" where
  "populateUser us i =
     map_option (\<lambda>u. \<lparr>refId = uid u, refName = name u, refEmail = email u\<rparr>)
       (find (\<lambda>u. uid u = i) us)"

definition populate :: "user list \<Rightarrow> meeting \<Rightarrow> populated" where
  "populate us m =
     \<lparr>doc = m,
      requestedByUser = populateUser us (requestedBy m),
      requestedToUser = populateUser us (requestedTo m)\<rparr>"

text \<open>\<^verbatim>\<open>.sort({ createdAt: -1 })\<close>: the latest first.\<close>

definition sortByCreatedAtDesc :: "meeting list \<Rightarrow> meeting list" where
  "sortByCreatedAtDesc ms = sort_key (\<lambda>m. - int (createdAt m)) ms"

subsection \<open>The handlers\<close>

text \<open>\<^verbatim>\<open>GET /\<close>\<close>

definition listForCaller :: "db \<Rightarrow> objectId \<Rightarrow> populated list reply \<times> db" where
  "listForCaller s caller =
     (Inr (200, map (populate (users s))
                  (sortByCreatedAtDesc (filter (isParticipant caller) (meetings s)))), s)"

text \<open>\<^verbatim>\<open>POST /\<close>\<close>

definition createMeeting ::
  "env \<Rightarrow> db \<Rightarrow> objectId \<Rightarrow> string \<Rightarrow> string \<Rightarrow> string \<Rightarrow> nat \<Rightarrow> nat \<Rightarrow> populated reply \<times> db"
where
  "createMeeting e s caller em ttl descr dt dur =
     (case findUserByEmail (users s) em of
        None \<Rightarrow> (Inl (Err 404 ''User not found''), s)
      | Some target \<Rightarrow>
          (let m = \<lparr>mid = freshId (meetings s),
                    requestedBy = caller,
                    requestedTo = uid target,
                    title = ttl,
                    description = descr,
                    dateTime = dt,
                    duration = dur,
                    status = ''pending'',
                    meetingLink = newMeetingLink e,
                    virtualPitchRoomId = Some (newVirtualPitchRoomId e),
                    createdAt = createdNow e\<rparr>;
               s' = s\<lparr>meetings := meetings s @ [m]\<rparr>
           in (Inr (201, populate (users s') m), s')))"

text \<open>\<^verbatim>\<open>PATCH /:meetingId/status\<close>. A value is falsy when it is absent or the empty string.\<close>

definition falsy :: "string option \<Rightarrow> bool" where
  "falsy v \<longleftrightarrow> v = None \<or> v = Some []"

definition setStatus ::
  "env \<Rightarrow> db \<Rightarrow> objectId \<Rightarrow> idParam \<Rightarrow> string option \<Rightarrow> populated reply \<times> db"
where
  "setStatus e s caller meetingId st =
     (if st \<noteq> Some ''accepted'' \<and> st \<noteq> Some ''declined''
      then (Inl (Err 400 ''Invalid status''), s)
      else
        (case meetingId of
           Malformed x \<Rightarrow> (Inl (Err 400 ''Error updating meeting status''), s)
         | WellFormed k \<Rightarrow>
            (case find (\<lambda>m. mid m = k \<and> requestedTo m = caller) (meetings s) of
               None \<Rightarrow> (Inl (Err 404 ''Meeting not found or unauthorized''), s)
             | Some m \<Rightarrow>
                 (let m1 = m\<lparr>status := the st\<rparr>;
                      m2 = (if st = Some ''accepted'' \<and> falsy (virtualPitchRoomId m1)
                            then m1\<lparr>virtualPitchRoomId := Some (newVirtualPitchRoomId e)\<rparr>
                            else m1);
                      s' = s\<lparr>meetings := saveDoc m2 (meetings s)\<rparr>
                  in (Inr (200, populate (users s') m2), s')))))"

text \<open>\<^verbatim>\<open>PATCH /:meetingId\<close>\<close>

definition updateMeetingLink ::
  "db \<Rightarrow> objectId \<Rightarrow> idParam \<Rightarrow> string option \<Rightarrow> populated reply \<times> db"
where
  "updateMeetingLink s caller meetingId link =
     (case meetingId of
        Malformed x \<Rightarrow> (Inl (Err 400 ''Error updating meeting''), s)
      | WellFormed k \<Rightarrow>
         (case find (\<lambda>m. mid m = k \<and> isParticipant caller m) (meetings s) of
            None \<Rightarrow> (Inl (Err 404 ''Meeting not found or unauthorized''), s)
          | Some m \<Rightarrow>
              (let m1 = (if \<not> falsy link then m\<lparr>meetingLink := the link\<rparr> else m);
                   s' = s\<lparr>meetings := saveDoc m1 (meetings s)\<rparr>
               in (Inr (200, populate (users s') m1), s'))))"

text \<open>\<^verbatim>\<open>GET /users\<close>\<close>

record userInfo =
  infoId :: objectId
  infoName :: string
  infoEmail :: string
  infoUserType :: string

definition listOtherUsers :: "db \<Rightarrow> objectId \<Rightarrow> userInfo list reply \<times> db" where
  "listOtherUsers s caller =
     (Inr (200, map (\<lambda>u. \<lparr>infoId = uid u, infoName = name u, infoEmail = email u,
                           infoUserType = userType u\<rparr>)
                  (filter (\<lambda>u. uid u \<noteq> caller) (users s))), s)"

text \<open>\<^verbatim>\<open>GET /:meetingId/virtual-pitch\<close> and \<^verbatim>\<open>PATCH /:meetingId/refresh-virtual-pitch\<close>\<close>

record pitchInfo =
  pitchMeetingId :: objectId
  pitchTitle :: string
  pitchRoomId :: "string option"
  virtualPitchUrl :: string

definition pitchInfoOf :: "meeting \<Rightarrow> pitchInfo" where
  "pitchInfoOf m =
     \<lparr>pitchMeetingId = mid m,
      pitchTitle = title m,
      pitchRoomId = virtualPitchRoomId m,
      virtualPitchUrl = ''/virtual-pitch/'' @
        (case virtualPitchRoomId m of None \<Rightarrow> ''undefined'' | Some r \<Rightarrow> r)\<rparr>"

definition getVirtualPitchInfo :: "db \<Rightarrow> objectId \<Rightarrow> idParam \<Rightarrow> pitchInfo reply \<times> db" where
  "getVirtualPitchInfo s caller meetingId =
     (case meetingId of
        Malformed x \<Rightarrow> (Inl (Err 500 ''Error fetching virtual pitch information''), s)
      | WellFormed k \<Rightarrow>
         (case find (\<lambda>m. mid m = k \<and> isParticipant caller m) (meetings s) of
            None \<Rightarrow> (Inl (Err 404 ''Meeting not found or unauthorized''), s)
          | Some m \<Rightarrow> (Inr (200, pitchInfoOf m), s)))"

definition refreshVirtualPitch ::
  "env \<Rightarrow> db \<Rightarrow> objectId \<Rightarrow> idParam \<Rightarrow> pitchInfo reply \<times> db"
where
  "refreshVirtualPitch e s caller meetingId =
     (case meetingId of
        Malformed x \<Rightarrow> (Inl (Err 500 ''Error refreshing virtual pitch room ID''), s)
      | WellFormed k \<Rightarrow>
         (case find (\<lambda>m. mid m = k \<and> status m = ''accepted'' \<and> isParticipant caller m)
                 (meetings s) of
            None \<Rightarrow> (Inl (Err 404 ''Meeting not found, not accepted, or unauthorized''), s)
          | Some m \<Rightarrow>
              (let m1 = m\<lparr>virtualPitchRoomId := Some (newVirtualPitchRoomId e)\<rparr>;
                   s' = s\<lparr>meetings := saveDoc m1 (meetings s)\<rparr>
               in (Inr (200, pitchInfoOf m1), s'))))"

subsection \<open>Requests and reachable databases\<close>

datatype request =
    ListForCaller objectId
  | CreateMeeting objectId string string string nat nat
  | SetStatus objectId idParam "string option"
  | UpdateMeetingLink objectId idParam "string option"
  | ListOtherUsers objectId
  | GetVirtualPitchInfo objectId idParam
  | RefreshVirtualPitch objectId idParam

text \<open>The database after a request has been handled.\<close>

fun handle :: "env \<Rightarrow> db \<Rightarrow> request \<Rightarrow> db" where
  "handle e s (ListForCaller c) = snd (listForCaller s c)"
| "handle e s (CreateMeeting c em ttl descr dt dur) = snd (createMeeting e s c em ttl descr dt dur)"
| "handle e s (SetStatus c p st) = snd (setStatus e s c p st)"
| "handle e s (UpdateMeetingLink c p link) = snd (updateMeetingLink s c p link)"
| "handle e s (ListOtherUsers c) = snd (listOtherUsers s c)"
| "handle e s (GetVirtualPitchInfo c p) = snd (getVirtualPitchInfo s c p)"
| "handle e s (RefreshVirtualPitch c p) = snd (refreshVirtualPitch e s c p)"

text \<open>
  The databases that arise: the meetings collection starts empty and changes through the
  handlers only; the users collection belongs to the identity directory and changes freely.
\<close>

inductive reachable :: "db \<Rightarrow> bool" where
  start: "reachable \<lparr>users = us, meetings = []\<rparr>"
| handled: "reachable s \<Longrightarrow> reachable (handle e s r)"
| directory: "reachable s \<Longrightarrow> reachable (s\<lparr>users := us\<rparr>)"

text \<open>The collection keeps the identifiers of its documents unique.\<close>

definition uniqueIds :: "db \<Rightarrow> bool" where
  "uniqueIds s \<longleftrightarrow> distinct (map mid (meetings s))"

text \<open>Every stored meeting has a room id, one that is not falsy.\<close>

definition allHaveRooms :: "db \<Rightarrow> bool" where
  "allHaveRooms s \<longleftrightarrow> (\<forall>m \<in> set (meetings s). \<not> falsy (virtualPitchRoomId m))"

text \<open>The document stored under an identifier.\<close>

definition meetingById :: "db \<Rightarrow> objectId \<Rightarrow> meeting option" where
  "meetingById s k = find (\<lambda>m. mid m = k) (meetings s)"

text \<open>
  The caller is the \<^verbatim>\<open>requestedTo\<close> participant of the meeting the parameter identifies;
  a string that is no ObjectId identifies none.
\<close>

definition isRequestedTo :: "db \<Rightarrow> objectId \<Rightarrow> idParam \<Rightarrow> bool" where
  "isRequestedTo s caller p \<longleftrightarrow>
     (case p of
        WellFormed k \<Rightarrow> (\<exists>m \<in> set (meetings s). mid m = k \<and> requestedTo m = caller)
      | Malformed x \<Rightarrow> False)"


text \<open>The ObjectId of the \<^verbatim>\<open>:meetingId\<close> of a request, where it has one.\<close>

fun meetingIdOf :: "request \<Rightarrow> objectId option" where
  "meetingIdOf (SetStatus c (WellFormed k) st) = Some k"
| "meetingIdOf (UpdateMeetingLink c (WellFormed k) link) = Some k"
| "meetingIdOf (GetVirtualPitchInfo c (WellFormed k)) = Some k"
| "meetingIdOf (RefreshVirtualPitch c (WellFormed k)) = Some k"
| "meetingIdOf r = None"

subsection \<open>A concrete run\<close>

text \<open>
  Three users; Alice asks Bob for a meeting, Bob accepts. The same environment serves
  every request of the run.
\<close>

definition exampleUsers :: "user list" where
  "exampleUsers =
     [\<lparr>uid = 1, name = ''Alice'', email = ''alice@x.com'', userType = ''startup''\<rparr>,
      \<lparr>uid = 2, name = ''Bob'', email = ''bob@x.com'', userType = ''investor''\<rparr>,
      \<lparr>uid = 3, name = ''Charlie'', email = ''charlie@x.com'', userType = ''investor''\<rparr>]"

definition exampleEnv :: env where
  "exampleEnv = \<lparr>dateNow = 1700000000000, randomLink = ''0.4fzyo82mvyr'',
                  randomRoom = ''0.k3x9q2wz7a'', createdNow = 1700000000000\<rparr>"

definition pendingMeeting :: meeting where
  "pendingMeeting =
     \<lparr>mid = 1, requestedBy = 1, requestedTo = 2, title = ''Pitch'',
      description = ''Seed round'', dateTime = 1700000600000, duration = 30,
      status = ''pending'', meetingLink = ''https://meet.google.com/82mvyr'',
      virtualPitchRoomId = Some ''pitch-1700000000000-k3x9q2'',
      createdAt = 1700000000000\<rparr>"

definition emptyDb :: db where
  "emptyDb = \<lparr>users = exampleUsers, meetings = []\<rparr>"

definition pendingDb :: db where
  "pendingDb = \<lparr>users = exampleUsers, meetings = [pendingMeeting]\<rparr>"

definition acceptedDb :: db where
  "acceptedDb = \<lparr>users = exampleUsers, meetings = [pendingMeeting\<lparr>status := ''accepted''\<rparr>]\<rparr>"

text \<open>A database whose one meeting, still pending, has no room yet.\<close>

definition roomlessDb :: db where
  "roomlessDb = \<lparr>users = exampleUsers, meetings = [pendingMeeting\<lparr>virtualPitchRoomId := None\<rparr>]\<rparr>"

definition declinedDb :: db where
  "declinedDb = \<lparr>users = exampleUsers, meetings = [pendingMeeting\<lparr>status := ''declined''\<rparr>]\<rparr>"

section \<open>Properties\<close>

subsection \<open>The run\<close>

lemma example_token: "newVirtualPitchRoomId exampleEnv = ''pitch-1700000000000-k3x9q2''"
  by (simp add: newVirtualPitchRoomId_def exampleEnv_def decimal.simps digit_def)

lemma example_link: "newMeetingLink exampleEnv = ''https://meet.google.com/82mvyr''"
  by (simp add: newMeetingLink_def exampleEnv_def)

lemma example_create:
  "createMeeting exampleEnv emptyDb 1 ''bob@x.com'' ''Pitch'' ''Seed round'' 1700000600000 30
     = (Inr (201, populate exampleUsers pendingMeeting), pendingDb)"
  by (simp add: createMeeting_def emptyDb_def pendingDb_def pendingMeeting_def exampleUsers_def
      findUserByEmail_def freshId_def example_token example_link Let_def)
    (simp add: exampleEnv_def)

lemma example_accept:
  "setStatus exampleEnv pendingDb 2 (WellFormed 1) (Some ''accepted'')
     = (Inr (200, populate exampleUsers (pendingMeeting\<lparr>status := ''accepted''\<rparr>)), acceptedDb)"
  by (simp add: setStatus_def pendingDb_def acceptedDb_def pendingMeeting_def falsy_def Let_def)

lemma example_decline:
  "setStatus exampleEnv acceptedDb 2 (WellFormed 1) (Some ''declined'')
     = (Inr (200, populate exampleUsers (pendingMeeting\<lparr>status := ''declined''\<rparr>)), declinedDb)"
  by (simp add: setStatus_def declinedDb_def acceptedDb_def pendingMeeting_def falsy_def Let_def)


lemma reachable_examples: "reachable emptyDb" "reachable pendingDb" "reachable acceptedDb"
proof -
  show 0: "reachable emptyDb" unfolding emptyDb_def by (rule reachable.start)
  have "reachable (handle exampleEnv emptyDb
      (CreateMeeting 1 ''bob@x.com'' ''Pitch'' ''Seed round'' 1700000600000 30))"
    by (rule reachable.handled[OF 0])
  then show 1: "reachable pendingDb" unfolding handle.simps example_create by simp
  have "reachable (handle exampleEnv pendingDb (SetStatus 2 (WellFormed 1) (Some ''accepted'')))"
    by (rule reachable.handled[OF 1])
  then show "reachable acceptedDb" unfolding handle.simps example_accept by simp
qed

subsection \<open>Saving\<close>

lemma saveDoc_ids: "map mid (saveDoc m ms) = map mid ms"
  by (induction ms) auto

lemma saveDoc_length: "length (saveDoc m ms) = length ms"
  by (induction ms) auto

lemma saveDoc_one:
  "saveDoc m ms = ms \<or> (\<exists>i < length ms. mid (ms ! i) = mid m \<and> saveDoc m ms = ms[i := m])"
proof (induction ms)
  case Nil
  then show ?case by simp
next
  case (Cons x xs)
  show ?case
  proof (cases "mid x = mid m")
    case True
    then have "mid ((x # xs) ! 0) = mid m \<and> saveDoc m (x # xs) = (x # xs)[0 := m]" by simp
    then show ?thesis by blast
  next
    case False
    from Cons.IH show ?thesis
    proof
      assume "saveDoc m xs = xs"
      with False show ?thesis by simp
    next
      assume "\<exists>i<length xs. mid (xs ! i) = mid m \<and> saveDoc m xs = xs[i := m]"
      then obtain i where i: "i < length xs" "mid (xs ! i) = mid m" "saveDoc m xs = xs[i := m]"
        by blast
      with False have "Suc i < length (x # xs) \<and> mid ((x # xs) ! Suc i) = mid m
          \<and> saveDoc m (x # xs) = (x # xs)[Suc i := m]" by simp
      then show ?thesis by blast
    qed
  qed
qed

lemma saveDoc_map:
  "distinct (map mid ms) \<Longrightarrow> saveDoc m ms = map (\<lambda>x. if mid x = mid m then m else x) ms"
proof (induction ms)
  case Nil
  then show ?case by simp
next
  case (Cons x xs)
  show ?case
  proof (cases "mid x = mid m")
    case True
    with Cons.prems have "mid m \<notin> mid ` set xs" by simp
    then have "\<forall>y \<in> set xs. mid y \<noteq> mid m" by (metis imageI)
    then have "map (\<lambda>x. if mid x = mid m then m else x) xs = xs"
      by (induction xs) auto
    with True show ?thesis by simp
  next
    case False
    with Cons show ?thesis by simp
  qed
qed

lemma saveDoc_same:
  "distinct (map mid ms) \<Longrightarrow> m \<in> set ms \<Longrightarrow> saveDoc m ms = ms"
proof (induction ms)
  case Nil
  then show ?case by simp
next
  case (Cons x xs)
  then show ?case by (cases "mid x = mid m") auto
qed

lemma find_saveDoc_same:
  "\<exists>x \<in> set ms. mid x = mid m \<Longrightarrow> find (\<lambda>x. mid x = mid m) (saveDoc m ms) = Some m"
  by (induction ms) auto

lemma find_saveDoc_other:
  "k \<noteq> mid m \<Longrightarrow> find (\<lambda>x. mid x = k) (saveDoc m ms) = find (\<lambda>x. mid x = k) ms"
  by (induction ms) auto

lemma find_by_id:
  "distinct (map mid ms) \<Longrightarrow> m \<in> set ms \<Longrightarrow> find (\<lambda>x. mid x = mid m) ms = Some m"
proof (induction ms)
  case Nil
  then show ?case by simp
next
  case (Cons x xs)
  then show ?case by (cases "x = m") (auto simp: image_iff)
qed

lemma find_with_id:
  "distinct (map mid ms) \<Longrightarrow> m \<in> set ms \<Longrightarrow>
     find (\<lambda>x. mid x = mid m \<and> P x) ms = (if P m then Some m else None)"
proof (induction ms)
  case Nil
  then show ?case by simp
next
  case (Cons x xs)
  show ?case
  proof (cases "x = m")
    case True
    with Cons.prems have "mid m \<notin> mid ` set xs" by simp
    then have "\<forall>y \<in> set xs. mid y \<noteq> mid m" by (metis imageI)
    then have "find (\<lambda>x. mid x = mid m \<and> P x) xs = None"
      unfolding find_None_iff by blast
    with True show ?thesis by simp
  next
    case False
    with Cons.prems have "mid x \<noteq> mid m" "m \<in> set xs" "distinct (map mid xs)"
      by (auto simp: image_iff)
    with Cons.IH show ?thesis by simp
  qed
qed

lemma find_is_member: "find P ms = Some m \<Longrightarrow> m \<in> set ms \<and> P m"
  by (induction ms) (auto split: if_splits)

lemma freshId_above: "m \<in> set ms \<Longrightarrow> mid m < freshId ms"
  unfolding freshId_def by (induction ms) auto

lemma freshId_new: "freshId ms \<notin> mid ` set ms"
  using freshId_above by fastforce

subsection \<open>Status validation\<close>

text \<open>
  Claim C8. Whenever the requested status is neither \<^verbatim>\<open>accepted\<close> nor \<^verbatim>\<open>declined\<close> (an
  absent status included), \<open>setStatus\<close> answers 400 \<^verbatim>\<open>Invalid status\<close> and the database is
  the one it was given, whatever the caller, the meeting identifier and the stored
  meetings are: the check comes before any document is loaded or saved.
\<close>

theorem setStatus_invalid_status:
  "st \<noteq> Some ''accepted'' \<Longrightarrow> st \<noteq> Some ''declined'' \<Longrightarrow>
     setStatus e s caller meetingId st = (Inl (Err 400 ''Invalid status''), s)"
  by (simp add: setStatus_def)

theorem setStatus_invalid_status_witness:
  "Some ''maybe'' \<noteq> Some ''accepted'' \<and> Some ''maybe'' \<noteq> Some ''declined'' \<and>
   setStatus exampleEnv acceptedDb 2 (WellFormed 1) (Some ''maybe'')
     = (Inl (Err 400 ''Invalid status''), acceptedDb) \<and>
   setStatus exampleEnv acceptedDb 2 (Malformed ''abc'') (Some ''maybe'')
     = (Inl (Err 400 ''Invalid status''), acceptedDb)"
proof -
  have a: "Some ''maybe'' \<noteq> Some ''accepted''" by simp
  have b: "Some ''maybe'' \<noteq> Some ''declined''" by simp
  from a b setStatus_invalid_status[OF a b, of exampleEnv acceptedDb 2 "WellFormed 1"]
    setStatus_invalid_status[OF a b, of exampleEnv acceptedDb 2 "Malformed ''abc''"]
  show ?thesis by (intro conjI)
qed

subsection \<open>Creation\<close>

text \<open>
  Claim C6. When no user of the directory has the target email, \<open>createMeeting\<close> answers
  404 \<^verbatim>\<open>User not found\<close> and the database afterwards is exactly the database before.
\<close>

theorem createMeeting_unknown_email:
  "em \<notin> email ` set (users s) \<Longrightarrow>
     createMeeting e s caller em ttl descr dt dur = (Inl (Err 404 ''User not found''), s)"
proof -
  assume "em \<notin> email ` set (users s)"
  then have "\<forall>u \<in> set (users s). email u \<noteq> em" by (metis imageI)
  then have "findUserByEmail (users s) em = None"
    unfolding findUserByEmail_def find_None_iff by blast
  then show ?thesis by (simp add: createMeeting_def)
qed

theorem createMeeting_unknown_email_witness:
  "''dave@x.com'' \<notin> email ` set (users emptyDb) \<and>
   createMeeting exampleEnv emptyDb 1 ''dave@x.com'' ''Pitch'' ''Seed round'' 1700000600000 30
     = (Inl (Err 404 ''User not found''), emptyDb)"
proof -
  have a: "''dave@x.com'' \<notin> email ` set (users emptyDb)"
    by (simp add: emptyDb_def exampleUsers_def)
  from a createMeeting_unknown_email[OF a] show ?thesis by (intro conjI)
qed

text \<open>What a creation stores when the email resolves.\<close>

lemma createMeeting_created:
  assumes "findUserByEmail (users s) em = Some target"
  shows "\<exists>m. createMeeting e s caller em ttl descr dt dur
            = (Inr (201, populate (users s) m), s\<lparr>meetings := meetings s @ [m]\<rparr>)
         \<and> status m = ''pending'' \<and> requestedBy m = caller \<and> requestedTo m = uid target
         \<and> mid m \<notin> mid ` set (meetings s)"
proof -
  let ?m = "\<lparr>mid = freshId (meetings s), requestedBy = caller, requestedTo = uid target,
             title = ttl, description = descr, dateTime = dt, duration = dur,
             status = ''pending'', meetingLink = newMeetingLink e,
             virtualPitchRoomId = Some (newVirtualPitchRoomId e), createdAt = createdNow e\<rparr>"
  from assms have "createMeeting e s caller em ttl descr dt dur
      = (Inr (201, populate (users s) ?m), s\<lparr>meetings := meetings s @ [?m]\<rparr>)"
    by (simp add: createMeeting_def Let_def)
  moreover have "mid ?m \<notin> mid ` set (meetings s)"
    using freshId_new[of "meetings s"] by simp
  moreover have "status ?m = ''pending'' \<and> requestedBy ?m = caller \<and> requestedTo ?m = uid target"
    by simp
  ultimately show ?thesis by blast
qed

text \<open>
  Claim C2. A created meeting is pending, and the claim wants its two participants to be
  different accounts also when the target email is the caller's own. The handler takes
  whichever user the email resolves to: Alice, giving her own email, gets a meeting
  whose \<^verbatim>\<open>requestedBy\<close> and \<^verbatim>\<open>requestedTo\<close> are both Alice.
\<close>

theorem createMeeting_own_email:
  "createMeeting exampleEnv emptyDb 1 ''alice@x.com'' ''Pitch'' ''Seed round'' 1700000600000 30
     = (Inr (201, populate exampleUsers (pendingMeeting\<lparr>requestedTo := 1\<rparr>)),
        \<lparr>users = exampleUsers, meetings = [pendingMeeting\<lparr>requestedTo := 1\<rparr>]\<rparr>) \<and>
   requestedBy (pendingMeeting\<lparr>requestedTo := 1\<rparr>) = requestedTo (pendingMeeting\<lparr>requestedTo := 1\<rparr>)"
  by (simp add: createMeeting_def emptyDb_def pendingMeeting_def exampleUsers_def
      findUserByEmail_def freshId_def example_token example_link Let_def)
    (simp add: exampleEnv_def)

subsection \<open>Who may set the status\<close>

text \<open>
  Claim C1, amended. When the caller is not the \<^verbatim>\<open>requestedTo\<close> participant of the meeting
  the \<^verbatim>\<open>:meetingId\<close> identifies (no meeting with that identifier, and a string that is no
  identifier, being such cases), \<open>setStatus\<close> leaves the database as it was. For a
  requested status other than \<^verbatim>\<open>accepted\<close> and \<^verbatim>\<open>declined\<close> the status check has
  answered 400 \<^verbatim>\<open>Invalid status\<close> first. Otherwise, for an ObjectId the answer is 404
  \<^verbatim>\<open>Meeting not found or unauthorized\<close>, the same answer whether the meeting is absent or
  belongs to others, and for a string that is no ObjectId the lookup throws and the
  answer is 400 \<^verbatim>\<open>Error updating meeting status\<close>.
\<close>

theorem setStatus_not_requestedTo:
  "\<not> isRequestedTo s caller meetingId \<Longrightarrow>
     setStatus e s caller meetingId st =
       (if st \<noteq> Some ''accepted'' \<and> st \<noteq> Some ''declined''
        then Inl (Err 400 ''Invalid status'')
        else (case meetingId of
                WellFormed k \<Rightarrow> Inl (Err 404 ''Meeting not found or unauthorized'')
              | Malformed x \<Rightarrow> Inl (Err 400 ''Error updating meeting status'')), s)"
proof (cases meetingId)
  case (WellFormed k)
  assume "\<not> isRequestedTo s caller meetingId"
  with WellFormed
  have "find (\<lambda>m. mid m = k \<and> requestedTo m = caller) (meetings s) = None"
    unfolding isRequestedTo_def find_None_iff by auto
  with WellFormed show ?thesis by (simp add: setStatus_def)
next
  case (Malformed x)
  then show ?thesis by (simp add: setStatus_def)
qed

text \<open>
  Charlie, who takes no part in meeting 1, asks to decline it, to decline meeting 7, and
  to decline \<^verbatim>\<open>abc\<close>.
\<close>

theorem setStatus_not_requestedTo_witness:
  "\<not> isRequestedTo acceptedDb 3 (WellFormed 1) \<and> \<not> isRequestedTo acceptedDb 3 (WellFormed 7) \<and>
   \<not> isRequestedTo acceptedDb 3 (Malformed ''abc'') \<and>
   setStatus exampleEnv acceptedDb 3 (WellFormed 1) (Some ''declined'')
     = (Inl (Err 404 ''Meeting not found or unauthorized''), acceptedDb) \<and>
   setStatus exampleEnv acceptedDb 3 (WellFormed 7) (Some ''declined'')
     = (Inl (Err 404 ''Meeting not found or unauthorized''), acceptedDb) \<and>
   setStatus exampleEnv acceptedDb 3 (Malformed ''abc'') (Some ''declined'')
     = (Inl (Err 400 ''Error updating meeting status''), acceptedDb)"
proof -
  have a: "\<not> isRequestedTo acceptedDb 3 (WellFormed 1)"
    by (simp add: isRequestedTo_def acceptedDb_def pendingMeeting_def)
  have b: "\<not> isRequestedTo acceptedDb 3 (WellFormed 7)"
    by (simp add: isRequestedTo_def acceptedDb_def pendingMeeting_def)
  have c: "\<not> isRequestedTo acceptedDb 3 (Malformed ''abc'')"
    by (simp add: isRequestedTo_def)
  from a b c setStatus_not_requestedTo[OF a, of exampleEnv "Some ''declined''"]
    setStatus_not_requestedTo[OF b, of exampleEnv "Some ''declined''"]
    setStatus_not_requestedTo[OF c, of exampleEnv "Some ''declined''"]
  show ?thesis by simp
qed

text \<open>
  As first stated the claim fails: with a status outside the two, and with a
  \<^verbatim>\<open>:meetingId\<close> that is no ObjectId, Charlie gets no 404.
\<close>

theorem setStatus_not_requestedTo_counterexample:
  "\<not> isRequestedTo acceptedDb 3 (WellFormed 1) \<and>
   fst (setStatus exampleEnv acceptedDb 3 (WellFormed 1) (Some ''maybe''))
     \<noteq> Inl (Err 404 ''Meeting not found or unauthorized'') \<and>
   \<not> isRequestedTo acceptedDb 3 (Malformed ''abc'') \<and>
   fst (setStatus exampleEnv acceptedDb 3 (Malformed ''abc'') (Some ''accepted''))
     \<noteq> Inl (Err 404 ''Meeting not found or unauthorized'')"
  by (simp add: isRequestedTo_def acceptedDb_def pendingMeeting_def setStatus_def)

subsection \<open>Listing\<close>

lemma doc_populate: "map doc (map (populate us) ms) = ms"
  by (induction ms) (simp_all add: populate_def)

lemma sortByCreatedAtDesc_sorted:
  "sorted_wrt (\<lambda>a b. createdAt b \<le> createdAt a) (sortByCreatedAtDesc ms)"
proof -
  have "sorted (map (\<lambda>m. - int (createdAt m)) (sortByCreatedAtDesc ms))"
    unfolding sortByCreatedAtDesc_def by (rule sorted_sort_key)
  then show ?thesis by (simp add: sorted_wrt_map)
qed

lemma sortByCreatedAtDesc_mset: "mset (sortByCreatedAtDesc ms) = mset ms"
  by (simp add: sortByCreatedAtDesc_def)

text \<open>
  Claim C9. \<open>listForCaller\<close> answers 200 with a list that holds, each once and populated
  from the directory, exactly the stored meetings whose \<^verbatim>\<open>requestedBy\<close> or \<^verbatim>\<open>requestedTo\<close> is
  the caller (every status, the whole list), the later \<^verbatim>\<open>createdAt\<close> first; the database is
  returned as it was.
\<close>

theorem listForCaller_exact_sorted:
  "\<exists>ps. listForCaller s caller = (Inr (200, ps), s)
     \<and> ps = map (populate (users s)) (map doc ps)
     \<and> mset (map doc ps)
         = mset (filter (\<lambda>m. requestedBy m = caller \<or> requestedTo m = caller) (meetings s))
     \<and> sorted_wrt (\<lambda>a b. createdAt b \<le> createdAt a) (map doc ps)"
proof -
  let ?ms = "sortByCreatedAtDesc (filter (isParticipant caller) (meetings s))"
  let ?ps = "map (populate (users s)) ?ms"
  have d: "map doc ?ps = ?ms" by (rule doc_populate)
  have 1: "listForCaller s caller = (Inr (200, ?ps), s)" by (simp add: listForCaller_def)
  have 2: "?ps = map (populate (users s)) (map doc ?ps)" by (simp only: d)
  have 3: "mset (map doc ?ps)
      = mset (filter (\<lambda>m. requestedBy m = caller \<or> requestedTo m = caller) (meetings s))"
    unfolding d sortByCreatedAtDesc_mset isParticipant_def ..
  have 4: "sorted_wrt (\<lambda>a b. createdAt b \<le> createdAt a) (map doc ?ps)"
    unfolding d by (rule sortByCreatedAtDesc_sorted)
  from 1 2 3 4 show ?thesis by blast
qed

text \<open>Alice's list in the run is the one accepted meeting.\<close>

theorem listForCaller_exact_sorted_witness:
  "fst (listForCaller acceptedDb 1)
     = Inr (200, [populate exampleUsers (pendingMeeting\<lparr>status := ''accepted''\<rparr>)])"
proof -
  from listForCaller_exact_sorted[of acceptedDb 1] obtain ps where
    r: "listForCaller acceptedDb 1 = (Inr (200, ps), acceptedDb)" and
    p: "ps = map (populate (users acceptedDb)) (map doc ps)" and
    m: "mset (map doc ps)
          = mset (filter (\<lambda>m. requestedBy m = 1 \<or> requestedTo m = 1) (meetings acceptedDb))"
    by blast
  from m have "mset (map doc ps) = mset [pendingMeeting\<lparr>status := ''accepted''\<rparr>]"
    by (simp add: acceptedDb_def pendingMeeting_def)
  then have "map doc ps = [pendingMeeting\<lparr>status := ''accepted''\<rparr>]"
    by (metis mset_single_iff_right mset.simps mset_zero_iff add_mset_eq_single)
  with p have "ps = [populate exampleUsers (pendingMeeting\<lparr>status := ''accepted''\<rparr>)]"
    by (simp add: acceptedDb_def)
  with r show ?thesis by simp
qed

subsection \<open>What a request writes\<close>

lemma handler_frame:
  assumes "find P ms = Some m0" and "\<And>x. P x \<Longrightarrow> mid x = k" and "mid m' = mid m0"
  shows "saveDoc m' ms = ms \<or>
     (\<exists>i < length ms. mid (ms ! i) = k \<and> mid m' = k \<and> saveDoc m' ms = ms[i := m'])"
proof -
  from find_is_member[OF assms(1)] have "P m0" by (rule conjunct2)
  with assms(2,3) have k: "mid m' = k" by simp
  from saveDoc_one[of m' ms] k show ?thesis by auto
qed

text \<open>The three shapes of what a request leaves in the meetings collection.\<close>

lemma handle_cases:
  "users (handle e s r) = users s \<and>
   (meetings (handle e s r) = meetings s
    \<or> (\<exists>c em ttl descr dt dur m'. r = CreateMeeting c em ttl descr dt dur
          \<and> mid m' \<notin> mid ` set (meetings s)
          \<and> meetings (handle e s r) = meetings s @ [m'])
    \<or> (\<exists>k i m'. meetingIdOf r = Some k \<and> i < length (meetings s)
          \<and> mid (meetings s ! i) = k \<and> mid m' = k
          \<and> meetings (handle e s r) = (meetings s)[i := m']))"
proof (cases r)
  case (ListForCaller c)
  then show ?thesis by (simp add: listForCaller_def)
next
  case (CreateMeeting c em ttl descr dt dur)
  show ?thesis
  proof (cases "findUserByEmail (users s) em")
    case None
    with CreateMeeting show ?thesis by (simp add: createMeeting_def)
  next
    case (Some target)
    with CreateMeeting show ?thesis
      using freshId_new[of "meetings s"] by (simp add: createMeeting_def Let_def)
  qed
next
  case (SetStatus c p st)
  show ?thesis
  proof (cases "st \<noteq> Some ''accepted'' \<and> st \<noteq> Some ''declined''")
    case True
    with SetStatus show ?thesis by (simp add: setStatus_def)
  next
    case valid: False
    show ?thesis
    proof (cases p)
      case (Malformed x)
      with SetStatus valid show ?thesis by (simp add: setStatus_def)
    next
      case (WellFormed k)
      with SetStatus have SetStatus: "r = SetStatus c (WellFormed k) st" by simp
      show ?thesis
      proof (cases "find (\<lambda>m. mid m = k \<and> requestedTo m = c) (meetings s)")
        case None
        with SetStatus valid show ?thesis by (simp add: setStatus_def)
      next
        case (Some m0)
      define m2 where "m2 = (if st = Some ''accepted'' \<and> falsy (virtualPitchRoomId (m0\<lparr>status := the st\<rparr>))
        then m0\<lparr>status := the st, virtualPitchRoomId := Some (newVirtualPitchRoomId e)\<rparr>
        else m0\<lparr>status := the st\<rparr>)"
      have id: "mid m2 = mid m0" by (simp add: m2_def)
      have res: "handle e s r = s\<lparr>meetings := saveDoc m2 (meetings s)\<rparr>"
        using SetStatus valid Some by (auto simp: setStatus_def Let_def m2_def)
        from handler_frame[OF Some _ id, of k] res SetStatus show ?thesis by auto
      qed
    qed
  qed
next
  case (UpdateMeetingLink c p link)
  show ?thesis
  proof (cases p)
    case (Malformed x)
    with UpdateMeetingLink show ?thesis by (simp add: updateMeetingLink_def)
  next
    case (WellFormed k)
    with UpdateMeetingLink have UpdateMeetingLink: "r = UpdateMeetingLink c (WellFormed k) link"
      by simp
    show ?thesis
    proof (cases "find (\<lambda>m. mid m = k \<and> isParticipant c m) (meetings s)")
    case None
    with UpdateMeetingLink show ?thesis by (simp add: updateMeetingLink_def)
  next
    case (Some m0)
    define m1 where "m1 = (if \<not> falsy link then m0\<lparr>meetingLink := the link\<rparr> else m0)"
    have id: "mid m1 = mid m0" by (simp add: m1_def)
    have res: "handle e s r = s\<lparr>meetings := saveDoc m1 (meetings s)\<rparr>"
      using UpdateMeetingLink Some by (simp add: updateMeetingLink_def Let_def m1_def)
    from handler_frame[OF Some _ id, of k] res UpdateMeetingLink show ?thesis by auto
  qed
  qed
next
  case (ListOtherUsers c)
  then show ?thesis by (simp add: listOtherUsers_def)
next
  case (GetVirtualPitchInfo c p)
  then show ?thesis by (simp add: getVirtualPitchInfo_def split: option.splits idParam.splits)
next
  case (RefreshVirtualPitch c p)
  show ?thesis
  proof (cases p)
    case (Malformed x)
    with RefreshVirtualPitch show ?thesis by (simp add: refreshVirtualPitch_def)
  next
    case (WellFormed k)
    with RefreshVirtualPitch have RefreshVirtualPitch: "r = RefreshVirtualPitch c (WellFormed k)"
      by simp
    show ?thesis
    proof (cases "find (\<lambda>m. mid m = k \<and> status m = ''accepted'' \<and> isParticipant c m) (meetings s)")
    case None
    with RefreshVirtualPitch show ?thesis by (simp add: refreshVirtualPitch_def)
  next
    case (Some m0)
    define m1 where "m1 = m0\<lparr>virtualPitchRoomId := Some (newVirtualPitchRoomId e)\<rparr>"
    have id: "mid m1 = mid m0" by (simp add: m1_def)
    have res: "handle e s r = s\<lparr>meetings := saveDoc m1 (meetings s)\<rparr>"
      using RefreshVirtualPitch Some by (simp add: refreshVirtualPitch_def Let_def m1_def)
    from handler_frame[OF Some _ id, of k] res RefreshVirtualPitch show ?thesis by auto
  qed
  qed
qed

text \<open>
  Claim C10. Whatever the request, the users collection is untouched, and the meetings
  collection afterwards is the one before, or the one before with a single new document
  appended under an unused identifier (a creation), or the one before with the single
  document at one position replaced, that document carrying the request's \<^verbatim>\<open>:meetingId\<close>
  before and after.
\<close>

theorem handle_frame:
  "users (handle e s r) = users s \<and>
   (meetings (handle e s r) = meetings s
    \<or> (\<exists>c em ttl descr dt dur m'. r = CreateMeeting c em ttl descr dt dur
          \<and> mid m' \<notin> mid ` set (meetings s)
          \<and> meetings (handle e s r) = meetings s @ [m'])
    \<or> (\<exists>k i m'. meetingIdOf r = Some k \<and> i < length (meetings s)
          \<and> mid (meetings s ! i) = k \<and> mid m' = k
          \<and> meetings (handle e s r) = (meetings s)[i := m']))"
  by (rule handle_cases)

text \<open>Bob's acceptance in the run rewrites the one document of meeting 1.\<close>

theorem handle_frame_witness:
  "users (handle exampleEnv pendingDb (SetStatus 2 (WellFormed 1) (Some ''accepted''))) = exampleUsers \<and>
   meetings (handle exampleEnv pendingDb (SetStatus 2 (WellFormed 1) (Some ''accepted'')))
     = (meetings pendingDb)[0 := pendingMeeting\<lparr>status := ''accepted''\<rparr>]"
proof -
  have "users (handle exampleEnv pendingDb (SetStatus 2 (WellFormed 1) (Some ''accepted''))) = users pendingDb"
    using handle_frame[of exampleEnv pendingDb "SetStatus 2 (WellFormed 1) (Some ''accepted'')"] by blast
  moreover have "handle exampleEnv pendingDb (SetStatus 2 (WellFormed 1) (Some ''accepted'')) = acceptedDb"
    unfolding handle.simps example_accept by simp
  ultimately show ?thesis by (simp add: pendingDb_def acceptedDb_def)
qed

subsection \<open>Changing the link\<close>

text \<open>
  Claim C7. For a stored meeting of which the caller is a participant (identifiers being
  unique in the collection), \<open>updateMeetingLink\<close> with an absent or empty link answers
  with the meeting as stored and leaves the database as it was; with a non-empty link it
  answers with, and stores in place of the meeting, the meeting whose \<^verbatim>\<open>meetingLink\<close> is
  that link and whose other fields are the stored ones.
\<close>

theorem updateMeetingLink_effect:
  assumes "uniqueIds s" and "m \<in> set (meetings s)" and "isParticipant caller m"
  shows "updateMeetingLink s caller (WellFormed (mid m)) link =
     (if falsy link then (Inr (200, populate (users s) m), s)
      else (Inr (200, populate (users s) (m\<lparr>meetingLink := the link\<rparr>)),
            s\<lparr>meetings := map (\<lambda>x. if mid x = mid m then m\<lparr>meetingLink := the link\<rparr> else x)
                             (meetings s)\<rparr>))"
proof -
  from assms(1) have d: "distinct (map mid (meetings s))" by (simp add: uniqueIds_def)
  from find_with_id[OF d assms(2), of "isParticipant caller"] assms(3)
  have f: "find (\<lambda>x. mid x = mid m \<and> isParticipant caller x) (meetings s) = Some m" by simp
  show ?thesis
  proof (cases "falsy link")
    case True
    with f saveDoc_same[OF d assms(2)] show ?thesis
      by (simp add: updateMeetingLink_def)
  next
    case False
    with f saveDoc_map[OF d, of "m\<lparr>meetingLink := the link\<rparr>"] show ?thesis
      by (simp add: updateMeetingLink_def Let_def)
  qed
qed

text \<open>Alice sends no link, then an empty one, then a new one.\<close>

theorem updateMeetingLink_effect_witness:
  "uniqueIds pendingDb \<and> pendingMeeting \<in> set (meetings pendingDb) \<and>
   isParticipant 1 pendingMeeting \<and>
   updateMeetingLink pendingDb 1 (WellFormed 1) None
     = (Inr (200, populate exampleUsers pendingMeeting), pendingDb) \<and>
   updateMeetingLink pendingDb 1 (WellFormed 1) (Some '''')
     = (Inr (200, populate exampleUsers pendingMeeting), pendingDb) \<and>
   updateMeetingLink pendingDb 1 (WellFormed 1) (Some ''https://meet.example/room'')
     = (Inr (200, populate exampleUsers (pendingMeeting\<lparr>meetingLink := ''https://meet.example/room''\<rparr>)),
        \<lparr>users = exampleUsers,
         meetings = [pendingMeeting\<lparr>meetingLink := ''https://meet.example/room''\<rparr>]\<rparr>)"
proof -
  have u: "uniqueIds pendingDb" by (simp add: uniqueIds_def pendingDb_def)
  have i: "pendingMeeting \<in> set (meetings pendingDb)" by (simp add: pendingDb_def)
  have p: "isParticipant 1 pendingMeeting" by (simp add: isParticipant_def pendingMeeting_def)
  have k: "mid pendingMeeting = 1" by (simp add: pendingMeeting_def)
  note t = updateMeetingLink_effect[OF u i p, unfolded k]
  have "updateMeetingLink pendingDb 1 (WellFormed 1) None
      = (Inr (200, populate exampleUsers pendingMeeting), pendingDb)"
    using t[of None] by (simp add: falsy_def pendingDb_def)
  moreover have "updateMeetingLink pendingDb 1 (WellFormed 1) (Some '''')
      = (Inr (200, populate exampleUsers pendingMeeting), pendingDb)"
    using t[of "Some ''''"] by (simp add: falsy_def pendingDb_def)
  moreover have "updateMeetingLink pendingDb 1 (WellFormed 1) (Some ''https://meet.example/room'')
     = (Inr (200, populate exampleUsers (pendingMeeting\<lparr>meetingLink := ''https://meet.example/room''\<rparr>)),
        \<lparr>users = exampleUsers,
         meetings = [pendingMeeting\<lparr>meetingLink := ''https://meet.example/room''\<rparr>]\<rparr>)"
    using t[of "Some ''https://meet.example/room''"] k by (simp add: falsy_def pendingDb_def)
  ultimately show ?thesis using u i p by (intro conjI)
qed

subsection \<open>Refreshing the room\<close>




lemma token_not_empty: "newVirtualPitchRoomId e \<noteq> []"
  by (simp add: newVirtualPitchRoomId_def)




subsection \<open>Invariants of the reachable databases\<close>

lemma handle_uniqueIds: "uniqueIds s \<Longrightarrow> uniqueIds (handle e s r)"
proof -
  assume u: "uniqueIds s"
  from handle_cases[of e s r] consider
    (same) "meetings (handle e s r) = meetings s"
  | (new) m' where "mid m' \<notin> mid ` set (meetings s)" "meetings (handle e s r) = meetings s @ [m']"
  | (upd) i m' where "i < length (meetings s)" "mid m' = mid (meetings s ! i)"
      "meetings (handle e s r) = (meetings s)[i := m']"
    by auto
  then show ?thesis
  proof cases
    case same
    with u show ?thesis by (simp add: uniqueIds_def)
  next
    case new
    with u show ?thesis by (simp add: uniqueIds_def)
  next
    case upd
    then have "map mid (meetings (handle e s r)) = map mid (meetings s)"
      by (metis list_update_id map_update nth_map)
    with u show ?thesis by (simp add: uniqueIds_def)
  qed
qed

lemma reachable_uniqueIds: "reachable s \<Longrightarrow> uniqueIds s"
proof (induction rule: reachable.induct)
  case (start us)
  show ?case by (simp add: uniqueIds_def)
next
  case (handled s e r)
  then show ?case by (simp add: handle_uniqueIds)
next
  case (directory s us)
  then show ?case by (simp add: uniqueIds_def)
qed

lemma set_saveDoc: "set (saveDoc m ms) \<subseteq> insert m (set ms)"
  by (induction ms) auto

text \<open>Every stored meeting has a room: creation assigns one and nothing removes it.\<close>

lemma token_not_falsy: "\<not> falsy (Some (newVirtualPitchRoomId e))"
  by (simp add: falsy_def token_not_empty)

lemma saveDoc_allHaveRooms:
  assumes "allHaveRooms s" and "\<not> falsy (virtualPitchRoomId m')"
  shows "allHaveRooms (s\<lparr>meetings := saveDoc m' (meetings s)\<rparr>)"
  using assms set_saveDoc[of m' "meetings s"] unfolding allHaveRooms_def by auto

lemma handle_allHaveRooms: "allHaveRooms s \<Longrightarrow> allHaveRooms (handle e s r)"
proof (cases r)
  case (ListForCaller c)
  assume "allHaveRooms s"
  with ListForCaller show ?thesis by (simp add: listForCaller_def)
next
  case (CreateMeeting c em ttl descr dt dur)
  assume a: "allHaveRooms s"
  show ?thesis
  proof (cases "findUserByEmail (users s) em")
    case None
    with CreateMeeting a show ?thesis by (simp add: createMeeting_def)
  next
    case (Some target)
    with CreateMeeting a token_not_falsy[of e] show ?thesis
      by (simp add: createMeeting_def Let_def allHaveRooms_def)
  qed
next
  case (SetStatus c p st)
  assume a: "allHaveRooms s"
  show ?thesis
  proof (cases p)
    case (Malformed x)
    with SetStatus a show ?thesis by (simp add: setStatus_def)
  next
    case (WellFormed k)
    with SetStatus have SetStatus: "r = SetStatus c (WellFormed k) st" by simp
    show ?thesis
    proof (cases "st \<noteq> Some ''accepted'' \<and> st \<noteq> Some ''declined''")
      case True
      with SetStatus a show ?thesis by (simp add: setStatus_def)
    next
      case valid: False
      show ?thesis
      proof (cases "find (\<lambda>m. mid m = k \<and> requestedTo m = c) (meetings s)")
        case None
        with SetStatus valid a show ?thesis by (simp add: setStatus_def)
      next
        case (Some m0)
        define m2 where "m2 = (if st = Some ''accepted'' \<and> falsy (virtualPitchRoomId (m0\<lparr>status := the st\<rparr>))
          then m0\<lparr>status := the st, virtualPitchRoomId := Some (newVirtualPitchRoomId e)\<rparr>
          else m0\<lparr>status := the st\<rparr>)"
        from find_is_member[OF Some] have "m0 \<in> set (meetings s)" by (rule conjunct1)
        with a have "\<not> falsy (virtualPitchRoomId m0)" by (simp add: allHaveRooms_def)
        then have r2: "\<not> falsy (virtualPitchRoomId m2)" by (simp add: m2_def)
        have res: "handle e s r = s\<lparr>meetings := saveDoc m2 (meetings s)\<rparr>"
          using SetStatus valid Some by (auto simp: setStatus_def Let_def m2_def)
        show ?thesis unfolding res using a r2 by (rule saveDoc_allHaveRooms)
      qed
    qed
  qed
next
  case (UpdateMeetingLink c p link)
  assume a: "allHaveRooms s"
  show ?thesis
  proof (cases p)
    case (Malformed x)
    with UpdateMeetingLink a show ?thesis by (simp add: updateMeetingLink_def)
  next
    case (WellFormed k)
    with UpdateMeetingLink have UpdateMeetingLink: "r = UpdateMeetingLink c (WellFormed k) link" by simp
    show ?thesis
    proof (cases "find (\<lambda>m. mid m = k \<and> isParticipant c m) (meetings s)")
      case None
      with UpdateMeetingLink a show ?thesis by (simp add: updateMeetingLink_def)
    next
      case (Some m0)
      define m1 where "m1 = (if \<not> falsy link then m0\<lparr>meetingLink := the link\<rparr> else m0)"
      from find_is_member[OF Some] have "m0 \<in> set (meetings s)" by (rule conjunct1)
      with a have "\<not> falsy (virtualPitchRoomId m0)" by (simp add: allHaveRooms_def)
      then have r1: "\<not> falsy (virtualPitchRoomId m1)" by (simp add: m1_def)
      have res: "handle e s r = s\<lparr>meetings := saveDoc m1 (meetings s)\<rparr>"
        using UpdateMeetingLink Some by (simp add: updateMeetingLink_def Let_def m1_def)
      show ?thesis unfolding res using a r1 by (rule saveDoc_allHaveRooms)
    qed
  qed
next
  case (ListOtherUsers c)
  assume "allHaveRooms s"
  with ListOtherUsers show ?thesis by (simp add: listOtherUsers_def)
next
  case (GetVirtualPitchInfo c p)
  assume "allHaveRooms s"
  with GetVirtualPitchInfo show ?thesis
    by (simp add: getVirtualPitchInfo_def split: option.splits idParam.splits)
next
  case (RefreshVirtualPitch c p)
  assume a: "allHaveRooms s"
  show ?thesis
  proof (cases p)
    case (Malformed x)
    with RefreshVirtualPitch a show ?thesis by (simp add: refreshVirtualPitch_def)
  next
    case (WellFormed k)
    with RefreshVirtualPitch have RefreshVirtualPitch: "r = RefreshVirtualPitch c (WellFormed k)" by simp
    show ?thesis
    proof (cases "find (\<lambda>m. mid m = k \<and> status m = ''accepted'' \<and> isParticipant c m) (meetings s)")
      case None
      with RefreshVirtualPitch a show ?thesis by (simp add: refreshVirtualPitch_def)
    next
      case (Some m0)
      define m1 where "m1 = m0\<lparr>virtualPitchRoomId := Some (newVirtualPitchRoomId e)\<rparr>"
      have r1: "\<not> falsy (virtualPitchRoomId m1)" by (simp add: m1_def token_not_falsy)
      have res: "handle e s r = s\<lparr>meetings := saveDoc m1 (meetings s)\<rparr>"
        using RefreshVirtualPitch Some by (simp add: refreshVirtualPitch_def Let_def m1_def)
      show ?thesis unfolding res using a r1 by (rule saveDoc_allHaveRooms)
    qed
  qed
qed

lemma reachable_allHaveRooms: "reachable s \<Longrightarrow> allHaveRooms s"
proof (induction rule: reachable.induct)
  case (start us)
  show ?case by (simp add: allHaveRooms_def)
next
  case (handled s e r)
  then show ?case by (simp add: handle_allHaveRooms)
next
  case (directory s us)
  then show ?case by (simp add: allHaveRooms_def)
qed

subsection \<open>Accepting assigns a room\<close>

text \<open>
  Claim C4. After a successful \<open>setStatus\<close> with \<^verbatim>\<open>accepted\<close> (identifiers being unique) the
  stored meeting is accepted and has a non-empty room id: the one it had when it had one,
  a generated one otherwise. And in every reachable database each accepted meeting has
  a non-empty room id.
\<close>

theorem setStatus_accepted_room:
  "(uniqueIds s \<longrightarrow>
      (\<forall>r s'. setStatus e s caller p (Some ''accepted'') = (Inr r, s') \<longrightarrow>
         (\<exists>k m m'. p = WellFormed k \<and> meetingById s k = Some m \<and> meetingById s' k = Some m'
            \<and> status m' = ''accepted''
            \<and> \<not> falsy (virtualPitchRoomId m')
            \<and> virtualPitchRoomId m'
                = (if falsy (virtualPitchRoomId m) then Some (newVirtualPitchRoomId e)
                   else virtualPitchRoomId m))))
   \<and> (reachable t \<longrightarrow>
        (\<forall>m \<in> set (meetings t). status m = ''accepted'' \<longrightarrow> \<not> falsy (virtualPitchRoomId m)))"
proof (intro conjI impI allI)
  fix r s'
  assume u: "uniqueIds s" and ok: "setStatus e s caller p (Some ''accepted'') = (Inr r, s')"
  from u have d: "distinct (map mid (meetings s))" by (simp add: uniqueIds_def)
  show "\<exists>k m m'. p = WellFormed k \<and> meetingById s k = Some m \<and> meetingById s' k = Some m'
            \<and> status m' = ''accepted''
            \<and> \<not> falsy (virtualPitchRoomId m')
            \<and> virtualPitchRoomId m'
                = (if falsy (virtualPitchRoomId m) then Some (newVirtualPitchRoomId e)
                   else virtualPitchRoomId m)"
  proof (cases p)
    case (Malformed x)
    with ok show ?thesis by (simp add: setStatus_def)
  next
    case (WellFormed k)
    show ?thesis
    proof (cases "find (\<lambda>m. mid m = k \<and> requestedTo m = caller) (meetings s)")
      case None
      with ok WellFormed show ?thesis by (simp add: setStatus_def)
    next
      case (Some m0)
      define m2 where "m2 = (if falsy (virtualPitchRoomId m0)
          then m0\<lparr>status := ''accepted'', virtualPitchRoomId := Some (newVirtualPitchRoomId e)\<rparr>
          else m0\<lparr>status := ''accepted''\<rparr>)"
      from find_is_member[OF Some] have in0: "m0 \<in> set (meetings s)" and k0: "mid m0 = k"
        by auto
      have id: "mid m2 = mid m0" by (simp add: m2_def)
      from ok Some WellFormed have s': "s' = s\<lparr>meetings := saveDoc m2 (meetings s)\<rparr>"
        by (auto simp: setStatus_def Let_def m2_def)
      from find_by_id[OF d in0] k0 have 1: "meetingById s k = Some m0"
        by (simp add: meetingById_def)
      from in0 id have "\<exists>x \<in> set (meetings s). mid x = mid m2" by auto
      from find_saveDoc_same[OF this] id k0 have 2: "meetingById s' k = Some m2"
        by (simp add: meetingById_def s')
      have 3: "status m2 = ''accepted''" by (simp add: m2_def)
      have 4: "\<not> falsy (virtualPitchRoomId m2)" by (simp add: m2_def token_not_falsy)
      have 5: "virtualPitchRoomId m2
          = (if falsy (virtualPitchRoomId m0) then Some (newVirtualPitchRoomId e)
             else virtualPitchRoomId m0)" by (simp add: m2_def)
      from WellFormed 1 2 3 4 5 show ?thesis by blast
    qed
  qed
next
  assume "reachable t"
  then have "allHaveRooms t" by (rule reachable_allHaveRooms)
  then show "\<forall>m \<in> set (meetings t). status m = ''accepted'' \<longrightarrow> \<not> falsy (virtualPitchRoomId m)"
    by (simp add: allHaveRooms_def)
qed

text \<open>
  Bob accepts the meeting of the run, which keeps its room, and a meeting without a room,
  which gets one; the accepted meeting of the run has a room.
\<close>

theorem setStatus_accepted_room_witness:
  "uniqueIds pendingDb \<and> uniqueIds roomlessDb \<and> reachable acceptedDb \<and>
   map_option virtualPitchRoomId (meetingById pendingDb 1) = Some (Some ''pitch-1700000000000-k3x9q2'') \<and>
   map_option virtualPitchRoomId
     (meetingById (snd (setStatus exampleEnv pendingDb 2 (WellFormed 1) (Some ''accepted''))) 1)
       = Some (Some ''pitch-1700000000000-k3x9q2'') \<and>
   map_option virtualPitchRoomId (meetingById roomlessDb 1) = Some None \<and>
   map_option virtualPitchRoomId
     (meetingById (snd (setStatus (exampleEnv\<lparr>dateNow := 1700000000001\<rparr>) roomlessDb 2 (WellFormed 1) (Some ''accepted''))) 1)
       = Some (Some ''pitch-1700000000001-k3x9q2'') \<and>
   list_all (\<lambda>m. \<not> falsy (virtualPitchRoomId m)) (meetings acceptedDb)"
proof -
  let ?e = "exampleEnv\<lparr>dateNow := 1700000000001\<rparr>"
  have tok: "newVirtualPitchRoomId ?e = ''pitch-1700000000001-k3x9q2''"
    by (simp add: newVirtualPitchRoomId_def exampleEnv_def decimal.simps digit_def)
  have u1: "uniqueIds pendingDb" by (simp add: uniqueIds_def pendingDb_def)
  have u2: "uniqueIds roomlessDb" by (simp add: uniqueIds_def roomlessDb_def)
  note re = reachable_examples(3)
  have b1: "meetingById pendingDb 1 = Some pendingMeeting"
    by (simp add: meetingById_def pendingDb_def pendingMeeting_def)
  have b2: "meetingById roomlessDb 1 = Some (pendingMeeting\<lparr>virtualPitchRoomId := None\<rparr>)"
    by (simp add: meetingById_def roomlessDb_def pendingMeeting_def)
  have ok1: "\<exists>r. setStatus exampleEnv pendingDb 2 (WellFormed 1) (Some ''accepted'')
      = (Inr r, snd (setStatus exampleEnv pendingDb 2 (WellFormed 1) (Some ''accepted'')))"
    unfolding example_accept by simp
  have ok2: "\<exists>r. setStatus ?e roomlessDb 2 (WellFormed 1) (Some ''accepted'')
      = (Inr r, snd (setStatus ?e roomlessDb 2 (WellFormed 1) (Some ''accepted'')))"
    by (simp add: setStatus_def roomlessDb_def pendingMeeting_def Let_def)
  from ok1 obtain r1 where r1: "setStatus exampleEnv pendingDb 2 (WellFormed 1) (Some ''accepted'')
      = (Inr r1, snd (setStatus exampleEnv pendingDb 2 (WellFormed 1) (Some ''accepted'')))" by blast
  from setStatus_accepted_room[of pendingDb exampleEnv 2 "WellFormed 1" acceptedDb] u1 r1
  obtain m m' where
    "meetingById pendingDb 1 = Some m"
    "meetingById (snd (setStatus exampleEnv pendingDb 2 (WellFormed 1) (Some ''accepted''))) 1 = Some m'"
    "virtualPitchRoomId m' = (if falsy (virtualPitchRoomId m)
       then Some (newVirtualPitchRoomId exampleEnv) else virtualPitchRoomId m)"
    by blast
  with b1 have 1: "map_option virtualPitchRoomId
     (meetingById (snd (setStatus exampleEnv pendingDb 2 (WellFormed 1) (Some ''accepted''))) 1)
       = Some (Some ''pitch-1700000000000-k3x9q2'')"
    by (auto simp: falsy_def pendingMeeting_def)
  from ok2 obtain r2 where r2: "setStatus ?e roomlessDb 2 (WellFormed 1) (Some ''accepted'')
      = (Inr r2, snd (setStatus ?e roomlessDb 2 (WellFormed 1) (Some ''accepted'')))" by blast
  from setStatus_accepted_room[of roomlessDb ?e 2 "WellFormed 1" acceptedDb] u2 r2
  obtain n n' where
    "meetingById roomlessDb 1 = Some n"
    "meetingById (snd (setStatus ?e roomlessDb 2 (WellFormed 1) (Some ''accepted''))) 1 = Some n'"
    "virtualPitchRoomId n' = (if falsy (virtualPitchRoomId n)
       then Some (newVirtualPitchRoomId ?e) else virtualPitchRoomId n)"
    by blast
  with b2 have 2: "map_option virtualPitchRoomId
     (meetingById (snd (setStatus ?e roomlessDb 2 (WellFormed 1) (Some ''accepted''))) 1)
       = Some (Some ''pitch-1700000000001-k3x9q2'')"
    by (auto simp: falsy_def tok)
  from setStatus_accepted_room[of pendingDb exampleEnv 2 "WellFormed 1" acceptedDb] re
  have 3: "list_all (\<lambda>m. \<not> falsy (virtualPitchRoomId m)) (meetings acceptedDb)"
    by (simp add: acceptedDb_def)
  have 4: "map_option virtualPitchRoomId (meetingById pendingDb 1) = Some (Some ''pitch-1700000000000-k3x9q2'')"
    unfolding b1 by (simp add: pendingMeeting_def)
  have 5: "map_option virtualPitchRoomId (meetingById roomlessDb 1) = Some None"
    unfolding b2 by simp
  from u1 u2 re 4 1 5 2 3 show ?thesis by (intro conjI)
qed

subsection \<open>How the status changes\<close>

lemma same_id_same_doc:
  assumes "distinct (map mid ms)" and "a \<in> set ms" and "b \<in> set ms" and "mid a = mid b"
  shows "a = b"
proof -
  from assms(1) have "inj_on mid (set ms)" by (simp add: distinct_map)
  with assms(2-4) show ?thesis by (rule_tac inj_onD)
qed

lemma meetingById_saved:
  assumes d: "distinct (map mid ms)" and m: "m \<in> set ms" and m0: "m0 \<in> set ms"
    and id: "mid m' = mid m0"
  shows "find (\<lambda>x. mid x = mid m) (saveDoc m' ms) = Some (if m = m0 then m' else m)"
proof (cases "m = m0")
  case True
  from m0 id have "\<exists>x \<in> set ms. mid x = mid m'" by auto
  from find_saveDoc_same[OF this] True id show ?thesis by simp
next
  case False
  with same_id_same_doc[OF d m m0] have "mid m \<noteq> mid m'" using id by auto
  from find_saveDoc_other[OF this] find_by_id[OF d m] False show ?thesis by simp
qed

lemma find_append_old:
  "m \<in> set ms \<Longrightarrow> P m \<Longrightarrow> find P (ms @ ns) = find P ms"
  by (induction ms) auto

text \<open>A request leaves the status of a stored meeting, or is its target's \<open>setStatus\<close>.\<close>

lemma status_kept_or_set:
  assumes u: "uniqueIds s" and m: "m \<in> set (meetings s)"
  shows "\<exists>m'. meetingById (handle e s r) (mid m) = Some m'
     \<and> (status m' = status m
        \<or> r = SetStatus (requestedTo m) (WellFormed (mid m)) (Some (status m'))
          \<and> (status m' = ''accepted'' \<or> status m' = ''declined''))"
proof -
  from u have d: "distinct (map mid (meetings s))" by (simp add: uniqueIds_def)
  from find_by_id[OF d m] have old: "meetingById s (mid m) = Some m"
    by (simp add: meetingById_def)
  show ?thesis
  proof (cases r)
    case (ListForCaller c)
    with old show ?thesis by (simp add: listForCaller_def)
  next
    case (CreateMeeting c em ttl descr dt dur)
    show ?thesis
    proof (cases "findUserByEmail (users s) em")
      case None
      with CreateMeeting old show ?thesis by (simp add: createMeeting_def)
    next
      case (Some target)
      with CreateMeeting old find_append_old[OF m, of "\<lambda>x. mid x = mid m"] show ?thesis
        by (simp add: createMeeting_def Let_def meetingById_def)
    qed
  next
    case (SetStatus c p st)
    show ?thesis
    proof (cases p)
      case (Malformed x)
      with SetStatus old show ?thesis by (simp add: setStatus_def)
    next
      case (WellFormed k)
      with SetStatus have SetStatus: "r = SetStatus c (WellFormed k) st" by simp
      show ?thesis
      proof (cases "st \<noteq> Some ''accepted'' \<and> st \<noteq> Some ''declined''")
        case True
        with SetStatus old show ?thesis by (simp add: setStatus_def)
      next
        case valid: False
        show ?thesis
        proof (cases "find (\<lambda>m. mid m = k \<and> requestedTo m = c) (meetings s)")
          case None
          with SetStatus valid old show ?thesis by (simp add: setStatus_def)
        next
          case (Some m0)
          define m2 where "m2 = (if st = Some ''accepted'' \<and> falsy (virtualPitchRoomId (m0\<lparr>status := the st\<rparr>))
            then m0\<lparr>status := the st, virtualPitchRoomId := Some (newVirtualPitchRoomId e)\<rparr>
            else m0\<lparr>status := the st\<rparr>)"
          from find_is_member[OF Some] have in0: "m0 \<in> set (meetings s)"
            and k0: "mid m0 = k" and c0: "requestedTo m0 = c" by auto
          have id: "mid m2 = mid m0" by (simp add: m2_def)
          have st2: "status m2 = the st" by (simp add: m2_def)
          have res: "handle e s r = s\<lparr>meetings := saveDoc m2 (meetings s)\<rparr>"
            using SetStatus valid Some by (auto simp: setStatus_def Let_def m2_def)
          from meetingById_saved[OF d m in0 id]
          have new: "meetingById (handle e s r) (mid m) = Some (if m = m0 then m2 else m)"
            by (simp add: res meetingById_def)
          show ?thesis
          proof (cases "m = m0")
            case True
            from valid st2 have "st = Some (status m2)" by auto
            with SetStatus True k0 c0
            have "r = SetStatus (requestedTo m) (WellFormed (mid m)) (Some (status m2))"
              by simp
            moreover from valid st2 have "status m2 = ''accepted'' \<or> status m2 = ''declined''"
              by auto
            ultimately show ?thesis using new True by auto
          next
            case False
            with new show ?thesis by simp
          qed
        qed
      qed
    qed
  next
    case (UpdateMeetingLink c p link)
    show ?thesis
    proof (cases p)
      case (Malformed x)
      with UpdateMeetingLink old show ?thesis by (simp add: updateMeetingLink_def)
    next
      case (WellFormed k)
      with UpdateMeetingLink have UpdateMeetingLink: "r = UpdateMeetingLink c (WellFormed k) link"
        by simp
      show ?thesis
      proof (cases "find (\<lambda>m. mid m = k \<and> isParticipant c m) (meetings s)")
        case None
        with UpdateMeetingLink old show ?thesis by (simp add: updateMeetingLink_def)
      next
        case (Some m0)
        define m1 where "m1 = (if \<not> falsy link then m0\<lparr>meetingLink := the link\<rparr> else m0)"
        from find_is_member[OF Some] have in0: "m0 \<in> set (meetings s)" by (rule conjunct1)
        have id: "mid m1 = mid m0" by (simp add: m1_def)
        have st1: "status m1 = status m0" by (simp add: m1_def)
        have res: "handle e s r = s\<lparr>meetings := saveDoc m1 (meetings s)\<rparr>"
          using UpdateMeetingLink Some by (simp add: updateMeetingLink_def Let_def m1_def)
        from meetingById_saved[OF d m in0 id]
        have "meetingById (handle e s r) (mid m) = Some (if m = m0 then m1 else m)"
          by (simp add: res meetingById_def)
        with st1 show ?thesis by auto
      qed
    qed
  next
    case (ListOtherUsers c)
    with old show ?thesis by (simp add: listOtherUsers_def)
  next
    case (GetVirtualPitchInfo c p)
    with old show ?thesis by (simp add: getVirtualPitchInfo_def split: option.splits idParam.splits)
  next
    case (RefreshVirtualPitch c p)
    show ?thesis
    proof (cases p)
      case (Malformed x)
      with RefreshVirtualPitch old show ?thesis by (simp add: refreshVirtualPitch_def)
    next
      case (WellFormed k)
      with RefreshVirtualPitch have RefreshVirtualPitch: "r = RefreshVirtualPitch c (WellFormed k)" by simp
      show ?thesis
      proof (cases "find (\<lambda>m. mid m = k \<and> status m = ''accepted'' \<and> isParticipant c m) (meetings s)")
        case None
        with RefreshVirtualPitch old show ?thesis by (simp add: refreshVirtualPitch_def)
      next
        case (Some m0)
        define m1 where "m1 = m0\<lparr>virtualPitchRoomId := Some (newVirtualPitchRoomId e)\<rparr>"
        from find_is_member[OF Some] have in0: "m0 \<in> set (meetings s)" by (rule conjunct1)
        have id: "mid m1 = mid m0" by (simp add: m1_def)
        have st1: "status m1 = status m0" by (simp add: m1_def)
        have res: "handle e s r = s\<lparr>meetings := saveDoc m1 (meetings s)\<rparr>"
          using RefreshVirtualPitch Some by (simp add: refreshVirtualPitch_def Let_def m1_def)
        from meetingById_saved[OF d m in0 id]
        have "meetingById (handle e s r) (mid m) = Some (if m = m0 then m1 else m)"
          by (simp add: res meetingById_def)
        with st1 show ?thesis by auto
      qed
    qed
  qed
qed

text \<open>The target's \<open>setStatus\<close> with one of the two statuses stores that status.\<close>

lemma setStatus_sets:
  assumes u: "uniqueIds s" and m: "m \<in> set (meetings s)"
    and st: "st = ''accepted'' \<or> st = ''declined''"
  shows "\<exists>m'. meetingById (handle e s (SetStatus (requestedTo m) (WellFormed (mid m)) (Some st)))
                 (mid m) = Some m' \<and> status m' = st"
proof -
  define m2 where "m2 = (if Some st = Some ''accepted'' \<and> falsy (virtualPitchRoomId (m\<lparr>status := st\<rparr>))
    then m\<lparr>status := st, virtualPitchRoomId := Some (newVirtualPitchRoomId e)\<rparr>
    else m\<lparr>status := st\<rparr>)"
  from u have d: "distinct (map mid (meetings s))" by (simp add: uniqueIds_def)
  from find_with_id[OF d m, of "\<lambda>x. requestedTo x = requestedTo m"]
  have f: "find (\<lambda>x. mid x = mid m \<and> requestedTo x = requestedTo m) (meetings s) = Some m"
    by simp
  have id: "mid m2 = mid m" by (simp add: m2_def)
  have st2: "status m2 = st" by (simp add: m2_def)
  from st f
  have res: "handle e s (SetStatus (requestedTo m) (WellFormed (mid m)) (Some st))
      = s\<lparr>meetings := saveDoc m2 (meetings s)\<rparr>"
    by (auto simp: setStatus_def Let_def m2_def)
  from m id have "\<exists>x \<in> set (meetings s). mid x = mid m2" by auto
  from find_saveDoc_same[OF this] id
  have "meetingById (s\<lparr>meetings := saveDoc m2 (meetings s)\<rparr>) (mid m) = Some m2"
    by (simp add: meetingById_def)
  with res st2 show ?thesis by simp
qed

text \<open>
  Claim C3, amended. Whatever request is handled (identifiers being unique), a stored
  meeting is still stored afterwards. Its status is then \<^verbatim>\<open>accepted\<close> when the request is
  \<open>setStatus\<close> with \<^verbatim>\<open>accepted\<close> on that meeting by its \<^verbatim>\<open>requestedTo\<close> participant,
  \<^verbatim>\<open>declined\<close> when it is that participant's \<open>setStatus\<close> with \<^verbatim>\<open>declined\<close>, and the status
  it had under every other request. So no meeting returns to \<^verbatim>\<open>pending\<close>; the status a
  meeting leaves is not looked at, and an accepted meeting can be declined and a
  declined one accepted.
\<close>

theorem status_changes_only_by_setStatus:
  assumes u: "uniqueIds s" and m: "m \<in> set (meetings s)"
  shows "\<exists>m'. meetingById (handle e s r) (mid m) = Some m'
     \<and> status m' =
         (if r = SetStatus (requestedTo m) (WellFormed (mid m)) (Some ''accepted'')
          then ''accepted''
          else if r = SetStatus (requestedTo m) (WellFormed (mid m)) (Some ''declined'')
          then ''declined''
          else status m)"
proof -
  consider
    (acc) "r = SetStatus (requestedTo m) (WellFormed (mid m)) (Some ''accepted'')"
  | (dec) "r = SetStatus (requestedTo m) (WellFormed (mid m)) (Some ''declined'')"
  | (other) "r \<noteq> SetStatus (requestedTo m) (WellFormed (mid m)) (Some ''accepted'')"
      "r \<noteq> SetStatus (requestedTo m) (WellFormed (mid m)) (Some ''declined'')"
    by blast
  then show ?thesis
  proof cases
    case acc
    from setStatus_sets[OF u m, of "''accepted''" e] acc show ?thesis by simp
  next
    case dec
    from setStatus_sets[OF u m, of "''declined''" e] dec show ?thesis by simp
  next
    case other
    from status_kept_or_set[OF u m, of e r] obtain m' where
      a: "meetingById (handle e s r) (mid m) = Some m'" and
      b: "status m' = status m
        \<or> r = SetStatus (requestedTo m) (WellFormed (mid m)) (Some (status m'))
          \<and> (status m' = ''accepted'' \<or> status m' = ''declined'')"
      by blast
    from b other have "status m' = status m" by auto
    with a other show ?thesis by simp
  qed
qed

text \<open>
  In the run, a refresh by Alice leaves the accepted meeting accepted, Bob declines it,
  and Bob accepts the declined meeting.
\<close>

theorem status_changes_only_by_setStatus_witness:
  "uniqueIds acceptedDb \<and> pendingMeeting\<lparr>status := ''accepted''\<rparr> \<in> set (meetings acceptedDb) \<and>
   uniqueIds declinedDb \<and> pendingMeeting\<lparr>status := ''declined''\<rparr> \<in> set (meetings declinedDb) \<and>
   map_option status
     (meetingById (handle exampleEnv acceptedDb (RefreshVirtualPitch 1 (WellFormed 1))) 1)
       = Some ''accepted'' \<and>
   map_option status
     (meetingById (handle exampleEnv acceptedDb (SetStatus 2 (WellFormed 1) (Some ''declined''))) 1)
       = Some ''declined'' \<and>
   map_option status
     (meetingById (handle exampleEnv declinedDb (SetStatus 2 (WellFormed 1) (Some ''accepted''))) 1)
       = Some ''accepted''"
proof -
  let ?a = "pendingMeeting\<lparr>status := ''accepted''\<rparr>"
  let ?d = "pendingMeeting\<lparr>status := ''declined''\<rparr>"
  have ua: "uniqueIds acceptedDb" by (simp add: uniqueIds_def acceptedDb_def)
  have ud: "uniqueIds declinedDb" by (simp add: uniqueIds_def declinedDb_def)
  have ia: "?a \<in> set (meetings acceptedDb)" by (simp add: acceptedDb_def)
  have id: "?d \<in> set (meetings declinedDb)" by (simp add: declinedDb_def)
  have ka: "mid ?a = 1" "requestedTo ?a = 2" "status ?a = ''accepted''"
    by (simp_all add: pendingMeeting_def)
  have kd: "mid ?d = 1" "requestedTo ?d = 2" "status ?d = ''declined''"
    by (simp_all add: pendingMeeting_def)
  from status_changes_only_by_setStatus[OF ua ia, of exampleEnv "RefreshVirtualPitch 1 (WellFormed 1)"]
  have 1: "map_option status
     (meetingById (handle exampleEnv acceptedDb (RefreshVirtualPitch 1 (WellFormed 1))) 1)
       = Some ''accepted''"
    unfolding ka by auto
  from status_changes_only_by_setStatus[OF ua ia, of exampleEnv
      "SetStatus 2 (WellFormed 1) (Some ''declined'')"]
  have 2: "map_option status
     (meetingById (handle exampleEnv acceptedDb (SetStatus 2 (WellFormed 1) (Some ''declined''))) 1)
       = Some ''declined''"
    unfolding ka by auto
  from status_changes_only_by_setStatus[OF ud id, of exampleEnv
      "SetStatus 2 (WellFormed 1) (Some ''accepted'')"]
  have 3: "map_option status
     (meetingById (handle exampleEnv declinedDb (SetStatus 2 (WellFormed 1) (Some ''accepted''))) 1)
       = Some ''accepted''"
    unfolding kd by auto
  from ua ia ud id 1 2 3 show ?thesis by (intro conjI)
qed

text \<open>
  As first stated the claim fails: in the run, Bob declines the meeting he has accepted.
\<close>

theorem accepted_then_declined_counterexample:
  "reachable acceptedDb \<and>
   map status (meetings acceptedDb) = [''accepted''] \<and>
   map status (meetings (handle exampleEnv acceptedDb (SetStatus 2 (WellFormed 1) (Some ''declined''))))
     = [''declined'']"
proof -
  have "handle exampleEnv acceptedDb (SetStatus 2 (WellFormed 1) (Some ''declined'')) = declinedDb"
    unfolding handle.simps example_decline by simp
  then show ?thesis using reachable_examples(3) by (simp add: acceptedDb_def declinedDb_def)
qed

end
